theory Spec2Isabelle
  imports Complex_Main
begin

section \<open>Data model\<close>

text \<open>
  The schema of \<^verbatim>\<open>supabase/migrations\<close> and the types of
  \<^verbatim>\<open>src/types/database.types.ts\<close>. A \<^verbatim>\<open>uuid\<close> is an opaque key; the
  timestamp columns and the surrogate keys of the child tables (results, images, history) are
  left out: no policy, trigger or handler reads them. Field names are prefixed where two
  tables use the same column name.
\<close>

type_synonym uuid = nat

datatype app_role = auditor | team_leader | hof_auditor | quality_head

datatype inspection_status =
  pending_team_leader | pending_hof_auditor | pending_quality_head | approved | rejected

text \<open>The column \<^verbatim>\<open>approval_history.action\<close>, checked to be 'approved' or 'rejected'.\<close>

datatype approval_action = action_approved | action_rejected

datatype specification_type = dimensional | visual | functional | compliance

record product =
  prod_id :: uuid
  is_active :: bool

record product_specification =
  spec_id :: uuid
  spec_product_id :: uuid
  parameter_name :: string
  standard_value :: string
  tolerance_min :: "rat option"
  tolerance_max :: "rat option"
  spec_type :: specification_type
  photo_required :: bool
  remarks_required :: bool
  evidence_required :: bool

record inspection =
  insp_id :: uuid
  inspection_number :: string
  insp_product_id :: uuid
  created_by :: uuid
  status :: inspection_status
  batch_number :: "string option"
  insp_remarks :: "string option"

record inspection_result =
  res_inspection_id :: uuid
  res_specification_id :: uuid
  res_actual_value :: string
  res_is_pass :: bool
  res_remarks :: "string option"

record inspection_image =
  img_inspection_id :: uuid
  image_url :: string
  img_description :: "string option"

record approval_entry =
  ah_inspection_id :: uuid
  approver_id :: uuid
  approver_role :: app_role
  ah_action :: approval_action
  previous_status :: inspection_status
  new_status :: inspection_status
  comments :: string

text \<open>
  The database. \<open>profiles\<close> holds the identities that can authenticate (the trigger
  \<^verbatim>\<open>on_auth_user_created\<close> gives every user a profile). \<open>auditor_resubmit_policy\<close>
  says whether the policy "Auditors can update own rejected inspections" is in force:
  migration 20260104174944 creates it (with a WITH CHECK clause), the migration that starts
  with "FIX 1" drops it, and the order of these two is not fixed by the files at hand, so
  the policy's presence is part of the state.
\<close>

record database =
  profiles :: "uuid list"
  user_roles :: "(uuid \<times> app_role) list"
  products :: "product list"
  specifications :: "product_specification list"
  inspections :: "inspection list"
  inspection_results :: "inspection_result list"
  inspection_images :: "inspection_image list"
  approval_history :: "approval_entry list"
  auditor_resubmit_policy :: bool

text \<open>
  What a statement can fail with: a row-level-security violation (SQLSTATE 42501, raised
  when a new row fails WITH CHECK), a unique violation (23505), a foreign-key violation
  (23503), and the exception of the trigger \<^verbatim>\<open>prevent_used_specification_deletion\<close>
  ("Cannot delete specification that is referenced by existing inspection results").
  A row that fails a USING clause is not an error: the statement does not see it.
\<close>

datatype pg_error =
  Rls_violation | Unique_violation | Foreign_key_violation | Specification_referenced

section \<open>Roles\<close>

text \<open>\<^verbatim>\<open>has_role(_user_id, _role)\<close>: a row of \<^verbatim>\<open>user_roles\<close> exists.\<close>

definition has_role :: "database \<Rightarrow> uuid \<Rightarrow> app_role \<Rightarrow> bool" where
  "has_role d u r = ((u, r) \<in> set (user_roles d))"

text \<open>\<^verbatim>\<open>quality_head_exists()\<close>.\<close>

definition quality_head_exists :: "database \<Rightarrow> bool" where
  "quality_head_exists d = list_ex (\<lambda>ur. snd ur = quality_head) (user_roles d)"

text \<open>The constraint \<^verbatim>\<open>user_roles_user_id_unique\<close>: one role row per user.\<close>

definition user_roles_unique :: "database \<Rightarrow> bool" where
  "user_roles_unique d = distinct (map fst (user_roles d))"

section \<open>The audit ledger: \<^verbatim>\<open>approval_history\<close>\<close>

text \<open>
  The only write policy of the table is "Approvers can insert approval history":
  \<^verbatim>\<open>FOR INSERT WITH CHECK (approver_id = auth.uid())\<close>. The foreign keys of the row
  (\<^verbatim>\<open>inspection_id\<close>, \<^verbatim>\<open>approver_id\<close>) must resolve. No policy exists for UPDATE or
  DELETE, so with row-level security enabled those statements see no row.
\<close>

definition insert_approval_history ::
  "database \<Rightarrow> uuid \<Rightarrow> approval_entry \<Rightarrow> pg_error + database" where
  "insert_approval_history d uid h =
     (if approver_id h = uid then
        (if list_ex (\<lambda>i. insp_id i = ah_inspection_id h) (inspections d)
            \<and> approver_id h \<in> set (profiles d)
         then Inr (d\<lparr>approval_history := approval_history d @ [h]\<rparr>)
         else Inl Foreign_key_violation)
      else Inl Rls_violation)"

section \<open>The record store: \<^verbatim>\<open>inspections\<close>\<close>

text \<open>
  "Auditors can create inspections": \<^verbatim>\<open>FOR INSERT WITH CHECK (has_role(auth.uid(),
  'auditor') AND created_by = auth.uid())\<close>. The primary key and the unique
  \<^verbatim>\<open>inspection_number\<close> must stay unique, and the product and the creator must exist.
\<close>

definition inspections_insert_check :: "database \<Rightarrow> uuid \<Rightarrow> inspection \<Rightarrow> bool" where
  "inspections_insert_check d uid i = (has_role d uid auditor \<and> created_by i = uid)"

definition inspections_keys_ok :: "inspection list \<Rightarrow> bool" where
  "inspections_keys_ok rows =
     (distinct (map insp_id rows) \<and> distinct (map inspection_number rows))"

definition inspection_refs_ok :: "database \<Rightarrow> inspection \<Rightarrow> bool" where
  "inspection_refs_ok d i =
     (list_ex (\<lambda>p. prod_id p = insp_product_id i) (products d)
      \<and> created_by i \<in> set (profiles d))"

definition insert_inspection :: "database \<Rightarrow> uuid \<Rightarrow> inspection \<Rightarrow> pg_error + database" where
  "insert_inspection d uid i =
     (if inspections_insert_check d uid i then
        (if inspections_keys_ok (inspections d @ [i]) then
           (if inspection_refs_ok d i then Inr (d\<lparr>inspections := inspections d @ [i]\<rparr>)
            else Inl Foreign_key_violation)
         else Inl Unique_violation)
      else Inl Rls_violation)"

text \<open>
  The UPDATE policies of migration 20260104174944, one per reviewing role, and the
  auditor's when it is in force. Permissive policies are combined with OR: a row is visible
  to the UPDATE when some USING clause holds of the old row, and the statement fails when no
  WITH CHECK clause holds of a new row. \<^verbatim>\<open>has_role\<close> is STABLE, so both are read
  against the state before the statement.
\<close>

definition inspections_update_using :: "database \<Rightarrow> uuid \<Rightarrow> inspection \<Rightarrow> bool" where
  "inspections_update_using d uid i =
     ((auditor_resubmit_policy d \<and> has_role d uid auditor \<and> created_by i = uid
         \<and> status i = rejected)
      \<or> (has_role d uid team_leader \<and> status i = pending_team_leader)
      \<or> (has_role d uid hof_auditor \<and> status i = pending_hof_auditor)
      \<or> (has_role d uid quality_head \<and> status i = pending_quality_head))"

definition inspections_update_check :: "database \<Rightarrow> uuid \<Rightarrow> inspection \<Rightarrow> bool" where
  "inspections_update_check d uid i =
     ((auditor_resubmit_policy d \<and> has_role d uid auditor \<and> created_by i = uid
         \<and> status i = pending_team_leader)
      \<or> (has_role d uid team_leader
           \<and> (status i = pending_hof_auditor \<or> status i = rejected))
      \<or> (has_role d uid hof_auditor
           \<and> (status i = pending_quality_head \<or> status i = rejected))
      \<or> (has_role d uid quality_head \<and> (status i = approved \<or> status i = rejected)))"

text \<open>
  \<^verbatim>\<open>UPDATE inspections SET ... WHERE wh\<close> issued by \<open>uid\<close>: \<open>upd\<close> is the SET clause as a
  function of the old row. Rows that fail the filter or USING are left as they are. The
  foreign keys of child rows, which would also refuse a change of the key of an inspection
  that has results, are not modelled: no handler writes the key.
\<close>

definition update_inspections ::
  "database \<Rightarrow> uuid \<Rightarrow> (inspection \<Rightarrow> bool) \<Rightarrow> (inspection \<Rightarrow> inspection)
     \<Rightarrow> pg_error + database" where
  "update_inspections d uid wh upd =
     (let hit = (\<lambda>i. wh i \<and> inspections_update_using d uid i);
          rows = map (\<lambda>i. if hit i then upd i else i) (inspections d)
      in if list_ex (\<lambda>i. hit i \<and> \<not> inspections_update_check d uid (upd i)) (inspections d)
         then Inl Rls_violation
         else if inspections_keys_ok rows then
           (if list_all (inspection_refs_ok d) (map upd (filter hit (inspections d)))
            then Inr (d\<lparr>inspections := rows\<rparr>)
            else Inl Foreign_key_violation)
         else Inl Unique_violation)"

text \<open>No DELETE policy exists on \<^verbatim>\<open>inspections\<close>: a DELETE sees no row.\<close>

definition delete_inspections ::
  "database \<Rightarrow> uuid \<Rightarrow> (inspection \<Rightarrow> bool) \<Rightarrow> pg_error + database" where
  "delete_inspections d uid wh = Inr d"

section \<open>Results and evidence\<close>

text \<open>
  "Auditors can manage inspection results", \<^verbatim>\<open>FOR ALL\<close> with a USING clause only, so
  the same predicate is the WITH CHECK of inserted and updated rows: the inspection of the
  row was created by the caller and is in status \<^verbatim>\<open>pending_team_leader\<close> or
  \<^verbatim>\<open>rejected\<close>. No migration replaces this policy.
\<close>

definition inspection_results_policy ::
  "database \<Rightarrow> uuid \<Rightarrow> inspection_result \<Rightarrow> bool" where
  "inspection_results_policy d uid r =
     list_ex (\<lambda>i. insp_id i = res_inspection_id r \<and> created_by i = uid
                  \<and> (status i = pending_team_leader \<or> status i = rejected))
       (inspections d)"

definition result_refs_ok :: "database \<Rightarrow> inspection_result \<Rightarrow> bool" where
  "result_refs_ok d r =
     (list_ex (\<lambda>i. insp_id i = res_inspection_id r) (inspections d)
      \<and> list_ex (\<lambda>s. spec_id s = res_specification_id r) (specifications d))"

definition insert_inspection_results ::
  "database \<Rightarrow> uuid \<Rightarrow> inspection_result list \<Rightarrow> pg_error + database" where
  "insert_inspection_results d uid rs =
     (if list_all (inspection_results_policy d uid) rs then
        (if list_all (result_refs_ok d) rs
         then Inr (d\<lparr>inspection_results := inspection_results d @ rs\<rparr>)
         else Inl Foreign_key_violation)
      else Inl Rls_violation)"

definition update_inspection_results ::
  "database \<Rightarrow> uuid \<Rightarrow> (inspection_result \<Rightarrow> bool)
     \<Rightarrow> (inspection_result \<Rightarrow> inspection_result) \<Rightarrow> pg_error + database" where
  "update_inspection_results d uid wh upd =
     (let hit = (\<lambda>r. wh r \<and> inspection_results_policy d uid r)
      in if list_ex (\<lambda>r. hit r \<and> \<not> inspection_results_policy d uid (upd r))
              (inspection_results d)
         then Inl Rls_violation
         else if list_all (result_refs_ok d) (map upd (filter hit (inspection_results d)))
         then Inr (d\<lparr>inspection_results :=
                       map (\<lambda>r. if hit r then upd r else r) (inspection_results d)\<rparr>)
         else Inl Foreign_key_violation)"

definition delete_inspection_results ::
  "database \<Rightarrow> uuid \<Rightarrow> (inspection_result \<Rightarrow> bool) \<Rightarrow> pg_error + database" where
  "delete_inspection_results d uid wh =
     Inr (d\<lparr>inspection_results :=
             filter (\<lambda>r. \<not> (wh r \<and> inspection_results_policy d uid r))
               (inspection_results d)\<rparr>)"

text \<open>
  "Auditors can manage inspection images", \<^verbatim>\<open>FOR ALL\<close>: the inspection of the row was
  created by the caller. The clause does not read the status.
\<close>

definition inspection_images_policy ::
  "database \<Rightarrow> uuid \<Rightarrow> inspection_image \<Rightarrow> bool" where
  "inspection_images_policy d uid g =
     list_ex (\<lambda>i. insp_id i = img_inspection_id g \<and> created_by i = uid) (inspections d)"

definition insert_inspection_image ::
  "database \<Rightarrow> uuid \<Rightarrow> inspection_image \<Rightarrow> pg_error + database" where
  "insert_inspection_image d uid g =
     (if inspection_images_policy d uid g
      then Inr (d\<lparr>inspection_images := inspection_images d @ [g]\<rparr>)
      else Inl Rls_violation)"

definition update_inspection_images ::
  "database \<Rightarrow> uuid \<Rightarrow> (inspection_image \<Rightarrow> bool)
     \<Rightarrow> (inspection_image \<Rightarrow> inspection_image) \<Rightarrow> pg_error + database" where
  "update_inspection_images d uid wh upd =
     (let hit = (\<lambda>g. wh g \<and> inspection_images_policy d uid g)
      in if list_ex (\<lambda>g. hit g \<and> \<not> inspection_images_policy d uid (upd g))
              (inspection_images d)
         then Inl Rls_violation
         else Inr (d\<lparr>inspection_images :=
                       map (\<lambda>g. if hit g then upd g else g) (inspection_images d)\<rparr>))"

definition delete_inspection_images ::
  "database \<Rightarrow> uuid \<Rightarrow> (inspection_image \<Rightarrow> bool) \<Rightarrow> pg_error + database" where
  "delete_inspection_images d uid wh =
     Inr (d\<lparr>inspection_images :=
             filter (\<lambda>g. \<not> (wh g \<and> inspection_images_policy d uid g))
               (inspection_images d)\<rparr>)"

section \<open>The role registry: \<^verbatim>\<open>user_roles\<close>\<close>

text \<open>
  "Quality head can manage roles", \<^verbatim>\<open>FOR ALL USING (has_role(auth.uid(),
  'quality_head'))\<close>: the clause reads the caller only, never the row that is written.
  An insert must keep \<^verbatim>\<open>user_id\<close> unique and refer to a profile.
\<close>

definition user_roles_policy :: "database \<Rightarrow> uuid \<Rightarrow> bool" where
  "user_roles_policy d uid = has_role d uid quality_head"

definition insert_user_role ::
  "database \<Rightarrow> uuid \<Rightarrow> uuid \<times> app_role \<Rightarrow> pg_error + database" where
  "insert_user_role d uid row =
     (if user_roles_policy d uid then
        (if fst row \<in> set (map fst (user_roles d)) then Inl Unique_violation
         else if fst row \<in> set (profiles d)
         then Inr (d\<lparr>user_roles := user_roles d @ [row]\<rparr>)
         else Inl Foreign_key_violation)
      else Inl Rls_violation)"

text \<open>\<^verbatim>\<open>update({ role: newRole }).eq('user_id', userId)\<close>.\<close>

definition update_user_role ::
  "database \<Rightarrow> uuid \<Rightarrow> uuid \<Rightarrow> app_role \<Rightarrow> pg_error + database" where
  "update_user_role d uid userId newRole =
     (if user_roles_policy d uid
      then Inr (d\<lparr>user_roles :=
                    map (\<lambda>ur. if fst ur = userId then (fst ur, newRole) else ur)
                      (user_roles d)\<rparr>)
      else Inr d)"

text \<open>\<^verbatim>\<open>delete().eq('user_id', userId)\<close>.\<close>

definition delete_user_role :: "database \<Rightarrow> uuid \<Rightarrow> uuid \<Rightarrow> pg_error + database" where
  "delete_user_role d uid userId =
     (if user_roles_policy d uid
      then Inr (d\<lparr>user_roles := filter (\<lambda>ur. fst ur \<noteq> userId) (user_roles d)\<rparr>)
      else Inr d)"

subsection \<open>The user management page (\<^verbatim>\<open>Users\<close>)\<close>

record user_with_role =
  uwr_id :: uuid
  uwr_role :: "app_role option"

text \<open>
  \<^verbatim>\<open>fetchUsers\<close>: every profile with the first role row the caller may read ("Users can
  view own role", and every row for a quality head).
\<close>

definition fetchUsers :: "database \<Rightarrow> uuid \<Rightarrow> user_with_role list" where
  "fetchUsers d uid =
     map (\<lambda>p. \<lparr>uwr_id = p,
               uwr_role = map_of (filter (\<lambda>ur. fst ur = uid \<or> has_role d uid quality_head)
                                    (user_roles d)) p\<rparr>)
       (profiles d)"

text \<open>
  The table cell "Assign Role": the select is rendered unless the row is the signed-in user
  ("You - Cannot modify own role") or a quality head ("Quality Head - Protected").
\<close>

definition role_select_rendered :: "uuid option \<Rightarrow> user_with_role \<Rightarrow> bool" where
  "role_select_rendered profile u =
     (if Some (uwr_id u) = profile then False
      else if uwr_role u = Some quality_head then False
      else True)"

datatype role_toast = Role_Updated | Role_Error

text \<open>
  \<^verbatim>\<open>handleRoleChange(userId, newRole)\<close>; \<open>None\<close> is the value 'none'. \<open>users\<close> is the
  list the page holds.
\<close>

definition handleRoleChange ::
  "database \<Rightarrow> uuid \<Rightarrow> user_with_role list \<Rightarrow> uuid \<Rightarrow> app_role option
     \<Rightarrow> role_toast \<times> database" where
  "handleRoleChange d uid users userId newRole =
     (case newRole of
        None \<Rightarrow>
          (case delete_user_role d uid userId of
             Inl e \<Rightarrow> (Role_Error, d)
           | Inr d' \<Rightarrow> (Role_Updated, d'))
      | Some r \<Rightarrow>
          (case Option.bind (find (\<lambda>u. uwr_id u = userId) users) uwr_role of
             Some existingRole \<Rightarrow>
               (case update_user_role d uid userId r of
                  Inl e \<Rightarrow> (Role_Error, d)
                | Inr d' \<Rightarrow> (Role_Updated, d'))
           | None \<Rightarrow>
               (case insert_user_role d uid (userId, r) of
                  Inl e \<Rightarrow> (Role_Error, d)
                | Inr d' \<Rightarrow> (Role_Updated, d'))))"

section \<open>The specification catalog\<close>

text \<open>
  "Quality head can manage specifications", \<^verbatim>\<open>FOR ALL\<close>, and the trigger
  \<^verbatim>\<open>prevent_specification_deletion\<close>, \<^verbatim>\<open>BEFORE DELETE FOR EACH ROW\<close>: the function
  \<^verbatim>\<open>prevent_used_specification_deletion\<close> raises when a result refers to the old row.
  The trigger runs for the rows the DELETE sees, which are the rows that pass USING.
\<close>

definition specifications_policy :: "database \<Rightarrow> uuid \<Rightarrow> bool" where
  "specifications_policy d uid = has_role d uid quality_head"

definition prevent_used_specification_deletion ::
  "database \<Rightarrow> product_specification \<Rightarrow> bool" where
  "prevent_used_specification_deletion d old =
     list_ex (\<lambda>r. res_specification_id r = spec_id old) (inspection_results d)"

definition delete_specifications ::
  "database \<Rightarrow> uuid \<Rightarrow> (product_specification \<Rightarrow> bool) \<Rightarrow> pg_error + database" where
  "delete_specifications d uid wh =
     (if specifications_policy d uid then
        (if list_ex (\<lambda>s. wh s \<and> prevent_used_specification_deletion d s) (specifications d)
         then Inl Specification_referenced
         else Inr (d\<lparr>specifications := filter (\<lambda>s. \<not> wh s) (specifications d)\<rparr>))
      else Inr d)"



section \<open>The approval page (\<^verbatim>\<open>InspectionDetail\<close>)\<close>

text \<open>
  The state of the page: the inspection as it was fetched, the profile and the role of the
  signed-in user as the auth context holds them, and the comment box.
\<close>

record detail_page =
  page_inspection :: "inspection option"
  page_profile :: "uuid option"
  page_role :: "app_role option"
  page_comments :: string

datatype toast = Comment_Required | Toast_Approved | Toast_Rejected | Toast_Error

text \<open>
  \<^verbatim>\<open>String.prototype.trim\<close> on the ASCII white space characters (tab, line feed,
  vertical tab, form feed, carriage return, space).
\<close>

definition is_space :: "char \<Rightarrow> bool" where
  "is_space c = (of_char c \<in> set [9, 10, 11, 12, 13, 32 :: nat])"

definition trim :: "string \<Rightarrow> string" where
  "trim s = rev (dropWhile is_space (rev (dropWhile is_space s)))"

fun roleStatusMap :: "app_role \<Rightarrow> inspection_status" where
  "roleStatusMap auditor = rejected"
| "roleStatusMap team_leader = pending_team_leader"
| "roleStatusMap hof_auditor = pending_hof_auditor"
| "roleStatusMap quality_head = pending_quality_head"

definition canApprove :: "detail_page \<Rightarrow> bool" where
  "canApprove p =
     (case page_inspection p of
        None \<Rightarrow> False
      | Some i \<Rightarrow>
          (case page_role p of
             None \<Rightarrow> False
           | Some r \<Rightarrow> if r = auditor then False else status i = roleStatusMap r))"

fun getNextStatus :: "inspection_status option \<Rightarrow> approval_action \<Rightarrow> inspection_status" where
  "getNextStatus _ action_rejected = rejected"
| "getNextStatus (Some pending_team_leader) action_approved = pending_hof_auditor"
| "getNextStatus (Some pending_hof_auditor) action_approved = pending_quality_head"
| "getNextStatus (Some pending_quality_head) action_approved = approved"
| "getNextStatus (Some s) action_approved = s"
| "getNextStatus None action_approved = pending_team_leader"

text \<open>
  \<^verbatim>\<open>handleApproval(action)\<close>, run by the session \<open>uid\<close> against the database: the guard
  on the page state, the insert into \<^verbatim>\<open>approval_history\<close>, then the update of the status,
  each of the two a request of its own. An error of either request ends in the catch block;
  what was written before stays written.
\<close>

definition handleApproval ::
  "database \<Rightarrow> uuid \<Rightarrow> detail_page \<Rightarrow> approval_action \<Rightarrow> toast \<times> database" where
  "handleApproval d uid p a =
     (case page_inspection p of
        None \<Rightarrow> (Comment_Required, d)
      | Some i \<Rightarrow>
     (case page_profile p of
        None \<Rightarrow> (Comment_Required, d)
      | Some prof \<Rightarrow>
     (case page_role p of
        None \<Rightarrow> (Comment_Required, d)
      | Some r \<Rightarrow>
          if trim (page_comments p) = [] then (Comment_Required, d)
          else
            let newStatus = getNextStatus (Some (status i)) a in
            (case insert_approval_history d uid
                    \<lparr>ah_inspection_id = insp_id i, approver_id = prof, approver_role = r,
                     ah_action = a, previous_status = status i, new_status = newStatus,
                     comments = trim (page_comments p)\<rparr> of
               Inl e \<Rightarrow> (Toast_Error, d)
             | Inr d1 \<Rightarrow>
                 (case update_inspections d1 uid (\<lambda>x. insp_id x = insp_id i)
                         (\<lambda>x. x\<lparr>status := newStatus\<rparr>) of
                    Inl e \<Rightarrow> (Toast_Error, d1)
                  | Inr d2 \<Rightarrow>
                      (if a = action_approved then Toast_Approved else Toast_Rejected, d2))))))"

text \<open>
  The page as it stands right after loading inspection \<open>i\<close> for the signed-in user:
  \<^verbatim>\<open>fetchUserData\<close> reads the user's role row (\<^verbatim>\<open>maybeSingle\<close>).
\<close>

definition load_page :: "database \<Rightarrow> uuid \<Rightarrow> inspection \<Rightarrow> string \<Rightarrow> detail_page" where
  "load_page d uid i c =
     \<lparr>page_inspection = Some i, page_profile = Some uid,
      page_role = map_of (user_roles d) uid, page_comments = c\<rparr>"

section \<open>The authoring page (\<^verbatim>\<open>CreateInspection\<close>)\<close>

subsection \<open>Numbers entered as text\<close>

text \<open>
  \<^verbatim>\<open>parseFloat\<close>: leading white space is skipped, then the longest prefix that is a
  decimal literal (sign, digits, fraction, exponent) or \<^verbatim>\<open>Infinity\<close> is read; anything
  after it is ignored, and the result is \<open>NaN\<close> when there is no such prefix. The value is
  kept as an exact rational: the rounding of a double is not part of the model.
\<close>

datatype jsnum = NaN | Num rat | Infinity bool

fun js_negate :: "jsnum \<Rightarrow> jsnum" where
  "js_negate NaN = NaN"
| "js_negate (Num x) = Num (- x)"
| "js_negate (Infinity positive) = Infinity (\<not> positive)"

fun isNaN :: "jsnum \<Rightarrow> bool" where
  "isNaN NaN = True"
| "isNaN (Num x) = False"
| "isNaN (Infinity positive) = False"

text \<open>\<^verbatim>\<open>n >= t\<close> and \<^verbatim>\<open>n <= t\<close> for a tolerance \<open>t\<close>, which is a finite number.\<close>

fun js_ge :: "jsnum \<Rightarrow> rat \<Rightarrow> bool" where
  "js_ge NaN t = False"
| "js_ge (Num x) t = (t \<le> x)"
| "js_ge (Infinity positive) t = positive"

fun js_le :: "jsnum \<Rightarrow> rat \<Rightarrow> bool" where
  "js_le NaN t = False"
| "js_le (Num x) t = (x \<le> t)"
| "js_le (Infinity positive) t = (\<not> positive)"

definition is_digit :: "char \<Rightarrow> bool" where
  "is_digit c = (48 \<le> (of_char c :: nat) \<and> (of_char c :: nat) \<le> 57)"

definition digits_value :: "string \<Rightarrow> nat" where
  "digits_value ds = foldl (\<lambda>a c. 10 * a + ((of_char c :: nat) - 48)) 0 ds"

definition signed_digits :: "string \<Rightarrow> int" where
  "signed_digits s =
     (case s of
        [] \<Rightarrow> 0
      | c # t \<Rightarrow>
          if c = CHR ''-'' then - int (digits_value (takeWhile is_digit t))
          else if c = CHR ''+'' then int (digits_value (takeWhile is_digit t))
          else int (digits_value (takeWhile is_digit s)))"

definition parse_exponent :: "string \<Rightarrow> int" where
  "parse_exponent s =
     (case s of
        [] \<Rightarrow> 0
      | c # t \<Rightarrow> if c = CHR ''e'' \<or> c = CHR ''E'' then signed_digits t else 0)"

definition scale10 :: "rat \<Rightarrow> int \<Rightarrow> rat" where
  "scale10 x e = (if 0 \<le> e then x * 10 ^ nat e else x / 10 ^ nat (- e))"

definition parse_unsigned :: "string \<Rightarrow> jsnum" where
  "parse_unsigned s =
     (if take 8 s = ''Infinity'' then Infinity True
      else
        let ip = takeWhile is_digit s;
            r1 = dropWhile is_digit s;
            fp = (case r1 of [] \<Rightarrow> []
                  | c # t \<Rightarrow> if c = CHR ''.'' then takeWhile is_digit t else []);
            r2 = (case r1 of [] \<Rightarrow> []
                  | c # t \<Rightarrow> if c = CHR ''.'' then dropWhile is_digit t else r1)
        in if ip = [] \<and> fp = [] then NaN
           else Num (scale10 (of_nat (digits_value ip)
                                + of_nat (digits_value fp) / 10 ^ length fp)
                       (parse_exponent r2)))"

definition parseFloat :: "string \<Rightarrow> jsnum" where
  "parseFloat s =
     (case dropWhile is_space s of
        [] \<Rightarrow> NaN
      | c # t \<Rightarrow>
          if c = CHR ''-'' then js_negate (parse_unsigned t)
          else if c = CHR ''+'' then parse_unsigned t
          else parse_unsigned (c # t))"

subsection \<open>The form\<close>

record InspectionResultInput =
  in_specification_id :: uuid
  in_actual_value :: string
  in_is_pass :: bool
  in_remarks :: string

text \<open>
  The state of the form. \<open>form_specifications\<close> and \<open>form_results\<close> are set together when
  a product is chosen and have one entry per specification, in the same order; the table
  renders one row per specification, so every handler is called with an index in range.
\<close>

record inspection_form =
  form_specifications :: "product_specification list"
  form_results :: "InspectionResultInput list"
  selectedProduct :: "uuid option"
  batchNumber :: string
  form_remarks :: string

definition initial_result :: "product_specification \<Rightarrow> InspectionResultInput" where
  "initial_result spec =
     \<lparr>in_specification_id = spec_id spec, in_actual_value = [], in_is_pass = True,
      in_remarks = []\<rparr>"

text \<open>The effect that runs when a product is selected (\<^verbatim>\<open>fetchSpecifications\<close>).\<close>

definition fetchSpecifications :: "database \<Rightarrow> inspection_form \<Rightarrow> uuid \<Rightarrow> inspection_form" where
  "fetchSpecifications d f pid =
     (let specs = filter (\<lambda>s. spec_product_id s = pid) (specifications d)
      in f\<lparr>form_specifications := specs, form_results := map initial_result specs,
           selectedProduct := Some pid\<rparr>)"

datatype result_edit = Edit_actual_value string | Edit_remarks string

text \<open>
  \<^verbatim>\<open>handleResultChange(index, field, value)\<close> for the two fields the form edits. The
  pass flag is recomputed only for a dimensional specification with both tolerances and a
  value that parses; otherwise it keeps what it was.
\<close>

definition handleResultChange ::
  "product_specification list \<Rightarrow> InspectionResultInput list \<Rightarrow> nat \<Rightarrow> result_edit
     \<Rightarrow> InspectionResultInput list" where
  "handleResultChange specs prev index e =
     (if index < length prev \<and> index < length specs then
        (case e of
           Edit_remarks v \<Rightarrow> prev[index := (prev ! index)\<lparr>in_remarks := v\<rparr>]
         | Edit_actual_value v \<Rightarrow>
             (let r = (prev ! index)\<lparr>in_actual_value := v\<rparr>;
                  spec = specs ! index
              in prev[index :=
                   (if spec_type spec = dimensional then
                      (case tolerance_min spec of
                         None \<Rightarrow> r
                       | Some lo \<Rightarrow>
                           (case tolerance_max spec of
                              None \<Rightarrow> r
                            | Some hi \<Rightarrow>
                                (let numValue = parseFloat v
                                 in if isNaN numValue then r
                                    else r\<lparr>in_is_pass :=
                                            js_ge numValue lo \<and> js_le numValue hi\<rparr>)))
                    else r)]))
      else prev)"


subsection \<open>Submission\<close>











section \<open>Histories of statements\<close>

text \<open>
  Every statement a signed-in user can send to the tables above, with the user who sends
  it. The handlers of the pages are compositions of these statements.
\<close>

datatype db_statement =
    Insert_inspection uuid inspection
  | Update_inspections uuid "inspection \<Rightarrow> bool" "inspection \<Rightarrow> inspection"
  | Delete_inspections uuid "inspection \<Rightarrow> bool"
  | Insert_results uuid "inspection_result list"
  | Update_results uuid "inspection_result \<Rightarrow> bool" "inspection_result \<Rightarrow> inspection_result"
  | Delete_results uuid "inspection_result \<Rightarrow> bool"
  | Insert_image uuid inspection_image
  | Update_images uuid "inspection_image \<Rightarrow> bool" "inspection_image \<Rightarrow> inspection_image"
  | Delete_images uuid "inspection_image \<Rightarrow> bool"
  | Insert_history uuid approval_entry
  | Insert_role uuid "uuid \<times> app_role"
  | Update_role uuid uuid app_role
  | Delete_role uuid uuid
  | Delete_specifications uuid "product_specification \<Rightarrow> bool"

fun run_statement :: "database \<Rightarrow> db_statement \<Rightarrow> pg_error + database" where
  "run_statement d (Insert_inspection uid i) = insert_inspection d uid i"
| "run_statement d (Update_inspections uid wh upd) = update_inspections d uid wh upd"
| "run_statement d (Delete_inspections uid wh) = delete_inspections d uid wh"
| "run_statement d (Insert_results uid rs) = insert_inspection_results d uid rs"
| "run_statement d (Update_results uid wh upd) = update_inspection_results d uid wh upd"
| "run_statement d (Delete_results uid wh) = delete_inspection_results d uid wh"
| "run_statement d (Insert_image uid g) = insert_inspection_image d uid g"
| "run_statement d (Update_images uid wh upd) = update_inspection_images d uid wh upd"
| "run_statement d (Delete_images uid wh) = delete_inspection_images d uid wh"
| "run_statement d (Insert_history uid h) = insert_approval_history d uid h"
| "run_statement d (Insert_role uid row) = insert_user_role d uid row"
| "run_statement d (Update_role uid userId r) = update_user_role d uid userId r"
| "run_statement d (Delete_role uid userId) = delete_user_role d uid userId"
| "run_statement d (Delete_specifications uid wh) = delete_specifications d uid wh"

text \<open>A statement that fails leaves the database as it was.\<close>

definition after_statement :: "database \<Rightarrow> db_statement \<Rightarrow> database" where
  "after_statement d st = (case run_statement d st of Inl e \<Rightarrow> d | Inr d' \<Rightarrow> d')"

definition after_statements :: "database \<Rightarrow> db_statement list \<Rightarrow> database" where
  "after_statements d sts = foldl after_statement d sts"

text \<open>The result rows of one inspection.\<close>

definition results_of :: "database \<Rightarrow> uuid \<Rightarrow> inspection_result list" where
  "results_of d iid = filter (\<lambda>r. res_inspection_id r = iid) (inspection_results d)"

section \<open>The transition table of the specification\<close>

text \<open>
  The table as the specification writes it, \<open>(current, actorRole, action) -> new\<close>, with
  \<open>None\<close> for every triple that is not a row. It is what the code is compared with.
\<close>

fun transition_table ::
  "inspection_status \<Rightarrow> app_role \<Rightarrow> approval_action \<Rightarrow> inspection_status option" where
  "transition_table pending_team_leader team_leader action_approved = Some pending_hof_auditor"
| "transition_table pending_team_leader team_leader action_rejected = Some rejected"
| "transition_table pending_hof_auditor hof_auditor action_approved = Some pending_quality_head"
| "transition_table pending_hof_auditor hof_auditor action_rejected = Some rejected"
| "transition_table pending_quality_head quality_head action_approved = Some approved"
| "transition_table pending_quality_head quality_head action_rejected = Some rejected"
| "transition_table _ _ _ = None"

text \<open>The entry \<open>handleApproval\<close> writes, and the toast of a completed call.\<close>

definition decision_entry ::
  "inspection \<Rightarrow> uuid \<Rightarrow> app_role \<Rightarrow> approval_action \<Rightarrow> string \<Rightarrow> approval_entry" where
  "decision_entry i prof r a c =
     \<lparr>ah_inspection_id = insp_id i, approver_id = prof, approver_role = r, ah_action = a,
      previous_status = status i, new_status = getNextStatus (Some (status i)) a,
      comments = trim c\<rparr>"


text \<open>The row of inspection \<open>i\<close> with a new status, every other row as it is.\<close>

definition with_status ::
  "inspection \<Rightarrow> inspection_status \<Rightarrow> inspection list \<Rightarrow> inspection list" where
  "with_status i s rows = map (\<lambda>x. if insp_id x = insp_id i then x\<lparr>status := s\<rparr> else x) rows"

section \<open>A sample plant\<close>

text \<open>
  One product with one dimensional specification (tolerance 10 to 11), four users, one per
  role, and one inspection by the auditor (user 10) with its result, in a given status.
\<close>

definition demo_spec :: product_specification where
  "demo_spec =
     \<lparr>spec_id = 1, spec_product_id = 1, parameter_name = ''Thickness'',
      standard_value = ''10.5'', tolerance_min = Some 10, tolerance_max = Some 11,
      spec_type = dimensional, photo_required = False, remarks_required = False,
      evidence_required = False\<rparr>"

definition demo_inspection :: "inspection_status \<Rightarrow> inspection" where
  "demo_inspection s =
     \<lparr>insp_id = 1, inspection_number = ''INS-20260104-0001'', insp_product_id = 1,
      created_by = 10, status = s, batch_number = None, insp_remarks = None\<rparr>"

definition demo_result :: inspection_result where
  "demo_result =
     \<lparr>res_inspection_id = 1, res_specification_id = 1, res_actual_value = ''10.5'',
      res_is_pass = True, res_remarks = None\<rparr>"

definition demo_db :: "inspection_status \<Rightarrow> database" where
  "demo_db s =
     \<lparr>profiles = [10, 11, 12, 13],
      user_roles = [(10, auditor), (11, team_leader), (12, hof_auditor), (13, quality_head)],
      products = [\<lparr>prod_id = 1, is_active = True\<rparr>],
      specifications = [demo_spec],
      inspections = [demo_inspection s],
      inspection_results = [demo_result],
      inspection_images = [],
      approval_history = [],
      auditor_resubmit_policy = False\<rparr>"

text \<open>
  The form of the auditor (user 10) for the sample product: the product is chosen, then
  \<open>v\<close> is typed into the value box of the one specification.
\<close>

definition empty_form :: inspection_form where
  "empty_form =
     \<lparr>form_specifications = [], form_results = [], selectedProduct = None,
      batchNumber = [], form_remarks = []\<rparr>"

definition demo_form :: "string \<Rightarrow> inspection_form" where
  "demo_form v =
     (let f = fetchSpecifications (demo_db approved) empty_form 1
      in f\<lparr>form_results :=
             handleResultChange (form_specifications f) (form_results f) 0
               (Edit_actual_value v)\<rparr>)"





section \<open>Facts about the approval path\<close>


lemma load_page_role:
  assumes "user_roles_unique d" and "has_role d uid r"
  shows "load_page d uid i c =
           \<lparr>page_inspection = Some i, page_profile = Some uid, page_role = Some r,
            page_comments = c\<rparr>"
  using assms by (simp add: load_page_def user_roles_unique_def has_role_def)

lemma same_id_same_row:
  assumes "inspections_keys_ok rows" and "i \<in> set rows" and "x \<in> set rows"
    and "insp_id x = insp_id i"
  shows "x = i"
proof -
  have "inj_on insp_id (set rows)"
    using assms(1) by (simp add: inspections_keys_ok_def distinct_map)
  then show ?thesis using assms(2-4) by (auto dest: inj_onD)
qed

lemma keys_ok_status_update:
  "inspections_keys_ok (map (\<lambda>x. if P x then x\<lparr>status := s\<rparr> else x) rows)
     = inspections_keys_ok rows"
proof -
  have a: "map insp_id (map (\<lambda>x. if P x then x\<lparr>status := s\<rparr> else x) rows) = map insp_id rows"
    by (induction rows) auto
  have b: "map inspection_number (map (\<lambda>x. if P x then x\<lparr>status := s\<rparr> else x) rows)
             = map inspection_number rows"
    by (induction rows) auto
  show ?thesis unfolding inspections_keys_ok_def a b ..
qed

lemma refs_ok_status: "inspection_refs_ok d (x\<lparr>status := s\<rparr>) = inspection_refs_ok d x"
  by (simp add: inspection_refs_ok_def)

lemma update_status_by_id:
  assumes keys: "inspections_keys_ok (inspections d)"
    and mem: "i \<in> set (inspections d)"
    and refs: "inspection_refs_ok d i"
  shows "update_inspections d uid (\<lambda>x. insp_id x = insp_id i) (\<lambda>x. x\<lparr>status := s\<rparr>) =
           (if inspections_update_using d uid i then
              (if inspections_update_check d uid (i\<lparr>status := s\<rparr>)
               then Inr (d\<lparr>inspections := with_status i s (inspections d)\<rparr>)
               else Inl Rls_violation)
            else Inr d)"
proof -
  let ?hit = "\<lambda>x. insp_id x = insp_id i \<and> inspections_update_using d uid x"
  have same: "\<And>x. x \<in> set (inspections d) \<Longrightarrow> insp_id x = insp_id i \<Longrightarrow> x = i"
    using same_id_same_row [OF keys mem] by blast
  show ?thesis
  proof (cases "inspections_update_using d uid i")
    case False
    have nohit: "\<And>x. x \<in> set (inspections d) \<Longrightarrow> \<not> ?hit x"
      using same False by blast
    have rows: "map (\<lambda>x. if ?hit x then x\<lparr>status := s\<rparr> else x) (inspections d) = inspections d"
      using nohit by (intro map_idI) auto
    have none: "filter ?hit (inspections d) = []"
      using nohit by (simp add: filter_empty_conv)
    have noex: "\<not> list_ex (\<lambda>x. ?hit x \<and> \<not> inspections_update_check d uid (x\<lparr>status := s\<rparr>))
                   (inspections d)"
      using nohit by (auto simp: list_ex_iff)
    show ?thesis
      using False keys noex
      by (simp add: update_inspections_def Let_def rows none)
  next
    case True
    have hit_iff: "\<And>x. x \<in> set (inspections d) \<Longrightarrow> ?hit x \<longleftrightarrow> insp_id x = insp_id i"
      using same True by blast
    have rows: "map (\<lambda>x. if ?hit x then x\<lparr>status := s\<rparr> else x) (inspections d)
                  = with_status i s (inspections d)"
      unfolding with_status_def using hit_iff by (intro map_cong) auto
    have ex: "list_ex (\<lambda>x. ?hit x \<and> \<not> inspections_update_check d uid (x\<lparr>status := s\<rparr>))
                (inspections d) \<longleftrightarrow> \<not> inspections_update_check d uid (i\<lparr>status := s\<rparr>)"
      using same True mem by (auto simp: list_ex_iff)
    have fk: "list_all (inspection_refs_ok d) (map (\<lambda>x. x\<lparr>status := s\<rparr>) (filter ?hit (inspections d)))"
      using same refs by (auto simp: list_all_iff refs_ok_status)
    have k: "inspections_keys_ok (with_status i s (inspections d))"
      unfolding with_status_def using keys by (simp add: keys_ok_status_update)
    show ?thesis
      using True ex fk k
      by (simp add: update_inspections_def Let_def rows)
  qed
qed






lemma update_inspections_only_inspections:
  assumes "update_inspections d uid wh upd = Inr d'"
  shows "d' = d\<lparr>inspections := inspections d'\<rparr>"
  using assms
  by (auto simp: update_inspections_def Let_def split: if_splits)








section \<open>Facts about the authoring path\<close>



lemma parseFloat_10_5: "parseFloat ''10.5'' = Num (21 / 2)"
  by (simp add: parseFloat_def parse_unsigned_def is_space_def is_digit_def digits_value_def
        parse_exponent_def scale10_def)

lemma parseFloat_abc: "parseFloat ''abc'' = NaN"
  by (simp add: parseFloat_def parse_unsigned_def is_space_def is_digit_def digits_value_def
        parse_exponent_def scale10_def)

lemma demo_form_10_5:
  "demo_form ''10.5'' =
     \<lparr>form_specifications = [demo_spec],
      form_results = [\<lparr>in_specification_id = 1, in_actual_value = ''10.5'', in_is_pass = True,
                       in_remarks = []\<rparr>],
      selectedProduct = Some 1, batchNumber = [], form_remarks = []\<rparr>"
  by (simp add: demo_form_def fetchSpecifications_def empty_form_def demo_db_def
        initial_result_def handleResultChange_def Let_def parseFloat_10_5 demo_spec_def)

lemma demo_form_abc:
  "demo_form ''abc'' =
     \<lparr>form_specifications = [demo_spec],
      form_results = [\<lparr>in_specification_id = 1, in_actual_value = ''abc'', in_is_pass = True,
                       in_remarks = []\<rparr>],
      selectedProduct = Some 1, batchNumber = [], form_remarks = []\<rparr>"
  by (simp add: demo_form_def fetchSpecifications_def empty_form_def demo_db_def
        initial_result_def handleResultChange_def Let_def parseFloat_abc demo_spec_def)






section \<open>Facts about histories\<close>

lemma approved_not_visible_to_update:
  "status i = approved \<Longrightarrow> \<not> inspections_update_using d uid i"
  by (simp add: inspections_update_using_def)

lemma rejected_not_visible_without_resubmit_policy:
  "status i = rejected \<Longrightarrow> \<not> auditor_resubmit_policy d \<Longrightarrow>
     \<not> inspections_update_using d uid i"
  by (simp add: inspections_update_using_def)

lemma update_inspections_keeps_unseen_row:
  assumes "update_inspections d uid wh upd = Inr d'"
    and "i \<in> set (inspections d)"
    and "\<not> inspections_update_using d uid i"
  shows "i \<in> set (inspections d')"
    and "inspections_keys_ok (inspections d')"
    and "inspection_results d' = inspection_results d"
proof -
  let ?hit = "\<lambda>x. wh x \<and> inspections_update_using d uid x"
  have d': "d' = d\<lparr>inspections := map (\<lambda>x. if ?hit x then upd x else x) (inspections d)\<rparr>"
    and k: "inspections_keys_ok (map (\<lambda>x. if ?hit x then upd x else x) (inspections d))"
    using assms(1) by (auto simp: update_inspections_def Let_def split: if_splits)
  have "(if ?hit i then upd i else i) = i" using assms(3) by simp
  then have "i \<in> (\<lambda>x. if ?hit x then upd x else x) ` set (inspections d)"
    using assms(2) by (intro image_eqI [where x = i]) simp_all
  then show "i \<in> set (inspections d')" by (simp add: d')
  show "inspections_keys_ok (inspections d')" using k by (simp add: d')
  show "inspection_results d' = inspection_results d" by (simp add: d')
qed

lemma results_policy_needs_open_inspection:
  assumes keys: "inspections_keys_ok (inspections d)"
    and mem: "i \<in> set (inspections d)"
    and closed: "status i \<noteq> pending_team_leader" "status i \<noteq> rejected"
    and own: "res_inspection_id r = insp_id i"
  shows "\<not> inspection_results_policy d uid r"
proof
  assume "inspection_results_policy d uid r"
  then obtain j where j: "j \<in> set (inspections d)" "insp_id j = insp_id i"
      "status j = pending_team_leader \<or> status j = rejected"
    using own by (auto simp: inspection_results_policy_def list_ex_iff)
  have "j = i" by (rule same_id_same_row [OF keys mem j(1) j(2)])
  with j(3) closed show False by simp
qed

lemma filter_map_untouched:
  assumes "\<And>x. x \<in> set xs \<Longrightarrow> g x = x \<or> (\<not> P x \<and> \<not> P (g x))"
  shows "filter P (map g xs) = filter P xs"
  using assms
proof (induction xs)
  case Nil
  then show ?case by simp
next
  case (Cons x xs)
  from Cons.prems [of x] have "g x = x \<or> (\<not> P x \<and> \<not> P (g x))" by simp
  moreover have "filter P (map g xs) = filter P xs"
    using Cons.IH Cons.prems by simp
  ultimately show ?case by auto
qed

lemma results_statements_keep_closed_inspection:
  assumes keys: "inspections_keys_ok (inspections d)"
    and mem: "i \<in> set (inspections d)"
    and closed: "status i \<noteq> pending_team_leader" "status i \<noteq> rejected"
  shows "insert_inspection_results d uid rs = Inr d' \<Longrightarrow>
           results_of d' (insp_id i) = results_of d (insp_id i) \<and> inspections d' = inspections d"
    and "update_inspection_results d uid wh upd = Inr d' \<Longrightarrow>
           results_of d' (insp_id i) = results_of d (insp_id i) \<and> inspections d' = inspections d"
    and "delete_inspection_results d uid wh = Inr d' \<Longrightarrow>
           results_of d' (insp_id i) = results_of d (insp_id i) \<and> inspections d' = inspections d"
proof -
  note no = results_policy_needs_open_inspection [OF keys mem closed]
  show "insert_inspection_results d uid rs = Inr d' \<Longrightarrow>
           results_of d' (insp_id i) = results_of d (insp_id i) \<and> inspections d' = inspections d"
  proof -
    assume a: "insert_inspection_results d uid rs = Inr d'"
    then have pol: "list_all (inspection_results_policy d uid) rs"
      and d': "d' = d\<lparr>inspection_results := inspection_results d @ rs\<rparr>"
      by (auto simp: insert_inspection_results_def split: if_splits)
    have "filter (\<lambda>r. res_inspection_id r = insp_id i) rs = []"
      using pol no by (auto simp: filter_empty_conv list_all_iff)
    then show ?thesis by (simp add: d' results_of_def)
  qed
  show "update_inspection_results d uid wh upd = Inr d' \<Longrightarrow>
           results_of d' (insp_id i) = results_of d (insp_id i) \<and> inspections d' = inspections d"
  proof -
    let ?hit = "\<lambda>r. wh r \<and> inspection_results_policy d uid r"
    assume a: "update_inspection_results d uid wh upd = Inr d'"
    then have chk: "\<not> list_ex (\<lambda>r. ?hit r \<and> \<not> inspection_results_policy d uid (upd r))
                        (inspection_results d)"
      and d': "d' = d\<lparr>inspection_results :=
                       map (\<lambda>r. if ?hit r then upd r else r) (inspection_results d)\<rparr>"
      by (auto simp: update_inspection_results_def Let_def split: if_splits)
    have "filter (\<lambda>r. res_inspection_id r = insp_id i)
            (map (\<lambda>r. if ?hit r then upd r else r) (inspection_results d))
          = filter (\<lambda>r. res_inspection_id r = insp_id i) (inspection_results d)"
    proof (rule filter_map_untouched)
      fix r assume r: "r \<in> set (inspection_results d)"
      show "(if ?hit r then upd r else r) = r
            \<or> (res_inspection_id r \<noteq> insp_id i
               \<and> res_inspection_id (if ?hit r then upd r else r) \<noteq> insp_id i)"
      proof (cases "?hit r")
        case False
        then have "(if ?hit r then upd r else r) = r" by (rule if_not_P)
        then show ?thesis by (rule disjI1)
      next
        case True
        then have new: "inspection_results_policy d uid (upd r)"
          using chk r by (auto simp: list_ex_iff)
        have old: "inspection_results_policy d uid r" using True by simp
        have "res_inspection_id r \<noteq> insp_id i" using no [of r uid] old by blast
        moreover have "res_inspection_id (upd r) \<noteq> insp_id i"
          using no [of "upd r" uid] new by blast
        moreover have "(if ?hit r then upd r else r) = upd r" using True by (rule if_P)
        ultimately show ?thesis by simp
      qed
    qed
    then show ?thesis by (simp add: d' results_of_def)
  qed
  show "delete_inspection_results d uid wh = Inr d' \<Longrightarrow>
           results_of d' (insp_id i) = results_of d (insp_id i) \<and> inspections d' = inspections d"
  proof -
    assume a: "delete_inspection_results d uid wh = Inr d'"
    then have d': "d' = d\<lparr>inspection_results :=
                       filter (\<lambda>r. \<not> (wh r \<and> inspection_results_policy d uid r))
                         (inspection_results d)\<rparr>"
      by (simp add: delete_inspection_results_def)
    have "filter (\<lambda>r. res_inspection_id r = insp_id i)
            (filter (\<lambda>r. \<not> (wh r \<and> inspection_results_policy d uid r)) (inspection_results d))
          = filter (\<lambda>r. res_inspection_id r = insp_id i) (inspection_results d)"
    proof -
      have "\<And>r. res_inspection_id r = insp_id i \<Longrightarrow>
              \<not> (wh r \<and> inspection_results_policy d uid r)"
        using no by blast
      then show ?thesis
        by (simp add: conj_commute cong: conj_cong)
    qed
    then show ?thesis by (simp add: d' results_of_def)
  qed
qed

lemma statement_keeps_approved:
  assumes keys: "inspections_keys_ok (inspections d)"
    and mem: "i \<in> set (inspections d)"
    and appr: "status i = approved"
  shows "inspections_keys_ok (inspections (after_statement d st))
         \<and> i \<in> set (inspections (after_statement d st))
         \<and> results_of (after_statement d st) (insp_id i) = results_of d (insp_id i)"
proof -
  have closed: "status i \<noteq> pending_team_leader" "status i \<noteq> rejected"
    using appr by simp_all
  note res = results_statements_keep_closed_inspection [OF keys mem closed]
  show ?thesis
  proof (cases st)
    case (Insert_inspection uid j)
    then show ?thesis
      using keys mem
      by (auto simp: after_statement_def insert_inspection_def results_of_def
            split: sum.splits if_splits)
  next
    case (Update_inspections uid wh upd)
    show ?thesis
    proof (cases "update_inspections d uid wh upd")
      case (Inl e)
      then show ?thesis using Update_inspections keys mem by (simp add: after_statement_def)
    next
      case (Inr d')
      note kept = update_inspections_keeps_unseen_row
                    [OF Inr mem approved_not_visible_to_update [OF appr]]
      show ?thesis
        using Update_inspections Inr kept by (simp add: after_statement_def results_of_def)
    qed
  next
    case (Delete_inspections uid wh)
    then show ?thesis
      using keys mem by (simp add: after_statement_def delete_inspections_def)
  next
    case (Insert_results uid rs)
    show ?thesis
    proof (cases "insert_inspection_results d uid rs")
      case (Inl e)
      then show ?thesis using Insert_results keys mem by (simp add: after_statement_def)
    next
      case (Inr d')
      then show ?thesis
        using Insert_results res(1) [OF Inr] keys mem by (simp add: after_statement_def)
    qed
  next
    case (Update_results uid wh upd)
    show ?thesis
    proof (cases "update_inspection_results d uid wh upd")
      case (Inl e)
      then show ?thesis using Update_results keys mem by (simp add: after_statement_def)
    next
      case (Inr d')
      then show ?thesis
        using Update_results res(2) [OF Inr] keys mem by (simp add: after_statement_def)
    qed
  next
    case (Delete_results uid wh)
    show ?thesis
    proof (cases "delete_inspection_results d uid wh")
      case (Inl e)
      then show ?thesis using Delete_results keys mem by (simp add: after_statement_def)
    next
      case (Inr d')
      then show ?thesis
        using Delete_results res(3) [OF Inr] keys mem by (simp add: after_statement_def)
    qed
  next
    case (Insert_image uid g)
    then show ?thesis
      using keys mem
      by (simp add: after_statement_def insert_inspection_image_def results_of_def)
  next
    case (Update_images uid wh upd)
    then show ?thesis
      using keys mem
      by (simp add: after_statement_def update_inspection_images_def results_of_def Let_def)
  next
    case (Delete_images uid wh)
    then show ?thesis
      using keys mem
      by (simp add: after_statement_def delete_inspection_images_def results_of_def)
  next
    case (Insert_history uid h)
    then show ?thesis
      using keys mem
      by (simp add: after_statement_def insert_approval_history_def results_of_def)
  next
    case (Insert_role uid row)
    then show ?thesis
      using keys mem
      by (simp add: after_statement_def insert_user_role_def results_of_def)
  next
    case (Update_role uid userId r)
    then show ?thesis
      using keys mem
      by (simp add: after_statement_def update_user_role_def results_of_def)
  next
    case (Delete_role uid userId)
    then show ?thesis
      using keys mem
      by (simp add: after_statement_def delete_user_role_def results_of_def)
  next
    case (Delete_specifications uid wh)
    then show ?thesis
      using keys mem
      by (simp add: after_statement_def delete_specifications_def results_of_def)
  qed
qed

text \<open>
  What does hold of an approved inspection: along every history of statements, by whatever
  users in whatever roles (role changes included), its row stays in the table as it is and
  its result rows stay as they are. Evidence rows are not covered (see C1).
\<close>

lemma approved_row_and_results_frozen:
  assumes "inspections_keys_ok (inspections d)"
    and "i \<in> set (inspections d)"
    and "status i = approved"
  shows "inspections_keys_ok (inspections (after_statements d sts))
         \<and> i \<in> set (inspections (after_statements d sts))
         \<and> results_of (after_statements d sts) (insp_id i) = results_of d (insp_id i)"
  using assms
proof (induction sts arbitrary: d)
  case Nil
  then show ?case by (simp add: after_statements_def)
next
  case (Cons st sts)
  note step = statement_keeps_approved [OF Cons.prems, of st]
  have "inspections_keys_ok (inspections (after_statements (after_statement d st) sts))
        \<and> i \<in> set (inspections (after_statements (after_statement d st) sts))
        \<and> results_of (after_statements (after_statement d st) sts) (insp_id i)
            = results_of (after_statement d st) (insp_id i)"
    using Cons.IH [of "after_statement d st"] step Cons.prems(3) by blast
  then show ?case
    using step by (simp add: after_statements_def)
qed

lemma statement_keeps_rejected_row:
  assumes keys: "inspections_keys_ok (inspections d)"
    and mem: "i \<in> set (inspections d)"
    and rej: "status i = rejected"
    and off: "\<not> auditor_resubmit_policy d"
  shows "inspections_keys_ok (inspections (after_statement d st))
         \<and> i \<in> set (inspections (after_statement d st))
         \<and> \<not> auditor_resubmit_policy (after_statement d st)"
proof (cases st)
  case (Insert_inspection uid j)
  then show ?thesis
    using keys mem off
    by (auto simp: after_statement_def insert_inspection_def split: sum.splits if_splits)
next
  case (Update_inspections uid wh upd)
  show ?thesis
  proof (cases "update_inspections d uid wh upd")
    case (Inl e)
    then show ?thesis using Update_inspections keys mem off by (simp add: after_statement_def)
  next
    case (Inr d')
    note kept = update_inspections_keeps_unseen_row
                  [OF Inr mem rejected_not_visible_without_resubmit_policy [OF rej off]]
    have "auditor_resubmit_policy d' = auditor_resubmit_policy d"
      using update_inspections_only_inspections [OF Inr]
      by (metis database.select_convs(9) database.surjective database.update_convs(5))
    then show ?thesis
      using Update_inspections Inr kept off by (simp add: after_statement_def)
  qed
next
  case (Delete_inspections uid wh)
  then show ?thesis
    using keys mem off by (simp add: after_statement_def delete_inspections_def)
next
  case (Insert_results uid rs)
  then show ?thesis
    using keys mem off by (simp add: after_statement_def insert_inspection_results_def)
next
  case (Update_results uid wh upd)
  then show ?thesis
    using keys mem off
    by (simp add: after_statement_def update_inspection_results_def Let_def)
next
  case (Delete_results uid wh)
  then show ?thesis
    using keys mem off by (simp add: after_statement_def delete_inspection_results_def)
next
  case (Insert_image uid g)
  then show ?thesis
    using keys mem off by (simp add: after_statement_def insert_inspection_image_def)
next
  case (Update_images uid wh upd)
  then show ?thesis
    using keys mem off
    by (simp add: after_statement_def update_inspection_images_def Let_def)
next
  case (Delete_images uid wh)
  then show ?thesis
    using keys mem off by (simp add: after_statement_def delete_inspection_images_def)
next
  case (Insert_history uid h)
  then show ?thesis
    using keys mem off by (simp add: after_statement_def insert_approval_history_def)
next
  case (Insert_role uid row)
  then show ?thesis
    using keys mem off by (simp add: after_statement_def insert_user_role_def)
next
  case (Update_role uid userId r)
  then show ?thesis
    using keys mem off by (simp add: after_statement_def update_user_role_def)
next
  case (Delete_role uid userId)
  then show ?thesis
    using keys mem off by (simp add: after_statement_def delete_user_role_def)
next
  case (Delete_specifications uid wh)
  then show ?thesis
    using keys mem off by (simp add: after_statement_def delete_specifications_def)
qed

text \<open>
  What does hold of a rejected inspection once the auditor's UPDATE policy is dropped
  ("FIX 1"): along every history of statements its row stays as it is, so nothing moves
  it out of \<open>rejected\<close>. Its result rows are not covered (see C2).
\<close>

lemma rejected_row_frozen_without_resubmit_policy:
  assumes "inspections_keys_ok (inspections d)"
    and "i \<in> set (inspections d)"
    and "status i = rejected"
    and "\<not> auditor_resubmit_policy d"
  shows "inspections_keys_ok (inspections (after_statements d sts))
         \<and> i \<in> set (inspections (after_statements d sts))
         \<and> \<not> auditor_resubmit_policy (after_statements d sts)"
  using assms
proof (induction sts arbitrary: d)
  case Nil
  then show ?case by (simp add: after_statements_def)
next
  case (Cons st sts)
  note step = statement_keeps_rejected_row [OF Cons.prems, of st]
  have "inspections_keys_ok (inspections (after_statements (after_statement d st) sts))
        \<and> i \<in> set (inspections (after_statements (after_statement d st) sts))
        \<and> \<not> auditor_resubmit_policy (after_statements (after_statement d st) sts)"
    using Cons.IH [of "after_statement d st"] step Cons.prems(3) by blast
  then show ?case by (simp add: after_statements_def)
qed

text \<open>
  With the policy of migration 20260104174944 in force, the creator of a rejected
  inspection, holding the auditor role, can send it back to \<open>pending_team_leader\<close>.
\<close>

lemma resubmit_policy_reopens_rejected:
  assumes keys: "inspections_keys_ok (inspections d)"
    and mem: "i \<in> set (inspections d)"
    and refs: "inspection_refs_ok d i"
    and rej: "status i = rejected"
    and own: "created_by i = uid"
    and role: "has_role d uid auditor"
    and on: "auditor_resubmit_policy d"
  shows "update_inspections d uid (\<lambda>x. insp_id x = insp_id i)
           (\<lambda>x. x\<lparr>status := pending_team_leader\<rparr>)
         = Inr (d\<lparr>inspections := with_status i pending_team_leader (inspections d)\<rparr>)"
  unfolding update_status_by_id [OF keys mem refs]
  using rej own role on
  by (simp add: inspections_update_using_def inspections_update_check_def)

text \<open>
  \<open>handleApproval\<close> only sends statements: what it leaves is the end of a history, so a
  decide call on an approved inspection changes neither its row nor its results.
\<close>

lemma handleApproval_as_statements:
  "\<exists>sts. snd (handleApproval d uid p a) = after_statements d sts"
proof (cases "\<exists>i prof r. page_inspection p = Some i \<and> page_profile p = Some prof
                \<and> page_role p = Some r \<and> trim (page_comments p) \<noteq> []")
  case False
  then have "snd (handleApproval d uid p a) = d"
    by (auto simp: handleApproval_def split: option.splits)
  then have "snd (handleApproval d uid p a) = after_statements d []"
    by (simp add: after_statements_def)
  then show ?thesis ..
next
  case True
  then obtain i prof r where p: "page_inspection p = Some i" "page_profile p = Some prof"
      "page_role p = Some r" "trim (page_comments p) \<noteq> []"
    by blast
  let ?h = "decision_entry i prof r a (page_comments p)"
  let ?ins = "Insert_history uid ?h"
  let ?upd = "Update_inspections uid (\<lambda>x. insp_id x = insp_id i)
                (\<lambda>x. x\<lparr>status := getNextStatus (Some (status i)) a\<rparr>)"
  show ?thesis
  proof (cases "insert_approval_history d uid ?h")
    case (Inl e)
    then have "snd (handleApproval d uid p a) = after_statements d []"
      using p by (simp add: handleApproval_def decision_entry_def after_statements_def)
    then show ?thesis ..
  next
    case (Inr d1)
    then have "snd (handleApproval d uid p a) = after_statements d [?ins, ?upd]"
      using p
      by (simp add: handleApproval_def decision_entry_def after_statements_def
            after_statement_def Let_def split: sum.splits)
    then show ?thesis ..
  qed
qed

lemma decide_keeps_approved:
  assumes "inspections_keys_ok (inspections d)"
    and "i \<in> set (inspections d)"
    and "status i = approved"
  shows "i \<in> set (inspections (snd (handleApproval d uid p a)))
         \<and> results_of (snd (handleApproval d uid p a)) (insp_id i) = results_of d (insp_id i)"
proof -
  obtain sts where "snd (handleApproval d uid p a) = after_statements d sts"
    using handleApproval_as_statements by blast
  then show ?thesis
    using approved_row_and_results_frozen [OF assms, of sts] by simp
qed

section \<open>What the pages render\<close>

text \<open>
  The approval card is rendered exactly for the roles and stages of the transition table,
  and the role select is never rendered for the signed-in user's own row or for a quality
  head. These are properties of the pages, not of the write paths behind them.
\<close>

lemma canApprove_matches_table:
  assumes "user_roles_unique d" and "has_role d uid r"
  shows "canApprove (load_page d uid i c)
           \<longleftrightarrow> transition_table (status i) r action_approved \<noteq> None"
  unfolding load_page_role [OF assms]
  by (cases "status i"; cases r) (simp_all add: canApprove_def)

lemma role_select_hidden_for_self_and_head:
  "\<not> role_select_rendered (Some uid) \<lparr>uwr_id = uid, uwr_role = shown\<rparr>"
  "\<not> role_select_rendered profile \<lparr>uwr_id = target, uwr_role = Some quality_head\<rparr>"
  by (simp_all add: role_select_rendered_def)

section \<open>Properties\<close>

subsection \<open>C1\<close>

text \<open>
  C1, at the failing input. The creator of an approved inspection can still add and delete
  its evidence rows: the policy on \<^verbatim>\<open>inspection_images\<close> does not read the status.
\<close>

theorem approved_evidence_stays_writable:
  assumes "i \<in> set (inspections d)"
    and "status i = approved"
    and "created_by i = uid"
  shows "insert_inspection_image d uid
           \<lparr>img_inspection_id = insp_id i, image_url = url, img_description = descr\<rparr>
         = Inr (d\<lparr>inspection_images := inspection_images d @
                   [\<lparr>img_inspection_id = insp_id i, image_url = url,
                     img_description = descr\<rparr>]\<rparr>)
         \<and> delete_inspection_images d uid (\<lambda>g. img_inspection_id g = insp_id i)
         = Inr (d\<lparr>inspection_images :=
                   filter (\<lambda>g. img_inspection_id g \<noteq> insp_id i) (inspection_images d)\<rparr>)"
proof -
  have pol: "\<And>g. img_inspection_id g = insp_id i \<Longrightarrow> inspection_images_policy d uid g"
    using assms by (auto simp: inspection_images_policy_def list_ex_iff)
  have del: "(\<lambda>g. \<not> (img_inspection_id g = insp_id i \<and> inspection_images_policy d uid g))
               = (\<lambda>g. img_inspection_id g \<noteq> insp_id i)"
    using pol by auto
  have ins: "insert_inspection_image d uid
           \<lparr>img_inspection_id = insp_id i, image_url = url, img_description = descr\<rparr>
         = Inr (d\<lparr>inspection_images := inspection_images d @
                   [\<lparr>img_inspection_id = insp_id i, image_url = url,
                     img_description = descr\<rparr>]\<rparr>)"
    using pol by (simp add: insert_inspection_image_def)
  have dele: "delete_inspection_images d uid (\<lambda>g. img_inspection_id g = insp_id i)
         = Inr (d\<lparr>inspection_images :=
                   filter (\<lambda>g. img_inspection_id g \<noteq> insp_id i) (inspection_images d)\<rparr>)"
    unfolding delete_inspection_images_def del ..
  show ?thesis using ins dele by (rule conjI)
qed

theorem approved_evidence_stays_writable_witness:
  "demo_inspection approved \<in> set (inspections (demo_db approved))
   \<and> status (demo_inspection approved) = approved
   \<and> created_by (demo_inspection approved) = 10
   \<and> insert_inspection_image (demo_db approved) 10
        \<lparr>img_inspection_id = 1, image_url = ''late.png'', img_description = None\<rparr>
      = Inr ((demo_db approved)\<lparr>inspection_images :=
               [\<lparr>img_inspection_id = 1, image_url = ''late.png'',
                 img_description = None\<rparr>]\<rparr>)"
proof -
  have a: "demo_inspection approved \<in> set (inspections (demo_db approved))"
    by (simp add: demo_db_def)
  have b: "status (demo_inspection approved) = approved"
    by (simp add: demo_inspection_def)
  have c: "created_by (demo_inspection approved) = 10"
    by (simp add: demo_inspection_def)
  from approved_evidence_stays_writable [OF a b c, where url = "''late.png''" and descr = None] a b c
  show ?thesis
    by (simp add: demo_db_def demo_inspection_def)
qed

subsection \<open>C2\<close>

text \<open>
  C2, at the failing input. The creator of a rejected inspection can still rewrite and
  delete its result rows: the policy on \<^verbatim>\<open>inspection_results\<close> admits the status
  \<^verbatim>\<open>rejected\<close>.
\<close>

theorem rejected_results_stay_writable:
  assumes "i \<in> set (inspections d)"
    and "status i = rejected"
    and "created_by i = uid"
    and "list_all (result_refs_ok d) (inspection_results d)"
  shows "update_inspection_results d uid (\<lambda>r. res_inspection_id r = insp_id i)
           (\<lambda>r. r\<lparr>res_actual_value := v, res_is_pass := b\<rparr>)
         = Inr (d\<lparr>inspection_results :=
                   map (\<lambda>r. if res_inspection_id r = insp_id i
                             then r\<lparr>res_actual_value := v, res_is_pass := b\<rparr> else r)
                     (inspection_results d)\<rparr>)
         \<and> delete_inspection_results d uid (\<lambda>r. res_inspection_id r = insp_id i)
         = Inr (d\<lparr>inspection_results :=
                   filter (\<lambda>r. res_inspection_id r \<noteq> insp_id i) (inspection_results d)\<rparr>)"
proof -
  have pol: "\<And>r. res_inspection_id r = insp_id i \<Longrightarrow> inspection_results_policy d uid r"
    using assms(1-3) by (auto simp: inspection_results_policy_def list_ex_iff)
  have pol': "\<And>r. res_inspection_id r = insp_id i \<Longrightarrow>
                inspection_results_policy d uid (r\<lparr>res_actual_value := v, res_is_pass := b\<rparr>)"
    using assms(1-3) by (auto simp: inspection_results_policy_def list_ex_iff)
  have refs: "\<And>r. r \<in> set (inspection_results d) \<Longrightarrow>
                result_refs_ok d (r\<lparr>res_actual_value := v, res_is_pass := b\<rparr>)"
    using assms(4) by (auto simp: result_refs_ok_def list_all_iff)
  have hit: "(\<lambda>r. res_inspection_id r = insp_id i \<and> inspection_results_policy d uid r)
               = (\<lambda>r. res_inspection_id r = insp_id i)"
    using pol by auto
  have del: "(\<lambda>r. \<not> (res_inspection_id r = insp_id i \<and> inspection_results_policy d uid r))
               = (\<lambda>r. res_inspection_id r \<noteq> insp_id i)"
    using pol by auto
  have upd: "update_inspection_results d uid (\<lambda>r. res_inspection_id r = insp_id i)
           (\<lambda>r. r\<lparr>res_actual_value := v, res_is_pass := b\<rparr>)
         = Inr (d\<lparr>inspection_results :=
                   map (\<lambda>r. if res_inspection_id r = insp_id i
                             then r\<lparr>res_actual_value := v, res_is_pass := b\<rparr> else r)
                     (inspection_results d)\<rparr>)"
    using pol' refs
    by (simp add: update_inspection_results_def hit list_ex_iff list_all_iff)
  have dele: "delete_inspection_results d uid (\<lambda>r. res_inspection_id r = insp_id i)
         = Inr (d\<lparr>inspection_results :=
                   filter (\<lambda>r. res_inspection_id r \<noteq> insp_id i) (inspection_results d)\<rparr>)"
    unfolding delete_inspection_results_def del ..
  show ?thesis using upd dele by (rule conjI)
qed

theorem rejected_results_stay_writable_witness:
  "demo_inspection rejected \<in> set (inspections (demo_db rejected))
   \<and> status (demo_inspection rejected) = rejected
   \<and> created_by (demo_inspection rejected) = 10
   \<and> list_all (result_refs_ok (demo_db rejected)) (inspection_results (demo_db rejected))
   \<and> update_inspection_results (demo_db rejected) 10 (\<lambda>r. res_inspection_id r = 1)
        (\<lambda>r. r\<lparr>res_actual_value := ''10.9'', res_is_pass := True\<rparr>)
      = Inr ((demo_db rejected)\<lparr>inspection_results :=
               [demo_result\<lparr>res_actual_value := ''10.9''\<rparr>]\<rparr>)
   \<and> delete_inspection_results (demo_db rejected) 10 (\<lambda>r. res_inspection_id r = 1)
      = Inr ((demo_db rejected)\<lparr>inspection_results := []\<rparr>)"
proof -
  have a: "demo_inspection rejected \<in> set (inspections (demo_db rejected))"
    by (simp add: demo_db_def)
  have b: "status (demo_inspection rejected) = rejected"
    by (simp add: demo_inspection_def)
  have c: "created_by (demo_inspection rejected) = 10"
    by (simp add: demo_inspection_def)
  have e: "list_all (result_refs_ok (demo_db rejected)) (inspection_results (demo_db rejected))"
    by (simp add: demo_db_def result_refs_ok_def demo_inspection_def demo_result_def
          demo_spec_def)
  from rejected_results_stay_writable [OF a b c e, where v = "''10.9''" and b = True] a b c e
  show ?thesis
    by (simp add: demo_db_def demo_inspection_def demo_result_def)
qed

subsection \<open>C3\<close>




subsection \<open>C4\<close>




subsection \<open>C5\<close>




subsection \<open>C6\<close>




subsection \<open>C7\<close>




subsection \<open>C8\<close>

text \<open>
  C8, at the failing input. The write path of the role registry reads only the caller's
  role: for a caller who holds \<open>quality_head\<close>, \<open>handleRoleChange\<close> removes the role rows
  of any target, and overwrites the role of any target the page shows a role for. The
  target may be the caller, and may hold \<open>quality_head\<close>; only the rendering of the select
  (\<open>role_select_rendered\<close>) keeps these two cases away.
\<close>

theorem quality_head_role_rows_unprotected:
  assumes "has_role d uid quality_head"
  shows "handleRoleChange d uid users target None
           = (Role_Updated,
              d\<lparr>user_roles := filter (\<lambda>ur. fst ur \<noteq> target) (user_roles d)\<rparr>)
         \<and> (Option.bind (find (\<lambda>u. uwr_id u = target) users) uwr_role = Some shown \<longrightarrow>
              handleRoleChange d uid users target (Some r)
                = (Role_Updated,
                   d\<lparr>user_roles :=
                        map (\<lambda>ur. if fst ur = target then (fst ur, r) else ur)
                          (user_roles d)\<rparr>))"
  using assms
  by (simp add: handleRoleChange_def delete_user_role_def update_user_role_def
        user_roles_policy_def)

theorem quality_head_role_rows_unprotected_witness:
  "has_role (demo_db approved) 13 quality_head
   \<and> handleRoleChange (demo_db approved) 13 (fetchUsers (demo_db approved) 13) 13 None
       = (Role_Updated,
          (demo_db approved)\<lparr>user_roles :=
             [(10, auditor), (11, team_leader), (12, hof_auditor)]\<rparr>)
   \<and> handleRoleChange (demo_db approved) 13 (fetchUsers (demo_db approved) 13) 13
         (Some auditor)
       = (Role_Updated,
          (demo_db approved)\<lparr>user_roles :=
             [(10, auditor), (11, team_leader), (12, hof_auditor), (13, auditor)]\<rparr>)"
proof -
  have q: "has_role (demo_db approved) 13 quality_head"
    by (simp add: has_role_def demo_db_def)
  have shown: "Option.bind (find (\<lambda>u. uwr_id u = 13) (fetchUsers (demo_db approved) 13))
                 uwr_role = Some quality_head"
    by (simp add: fetchUsers_def demo_db_def has_role_def)
  from quality_head_role_rows_unprotected
         [OF q, where users = "fetchUsers (demo_db approved) 13" and target = 13
            and shown = quality_head and r = auditor] q shown
  show ?thesis by (simp add: demo_db_def)
qed

subsection \<open>C9\<close>



subsection \<open>C10\<close>

text \<open>
  C10. For every authenticated identity and every inspection, appending an approval-history
  entry succeeds whenever the entry's \<open>approver_id\<close> is the caller's own identity: the entry
  is appended as given, whatever the caller's role, the inspection's status, and the role,
  action, previous status and new status the entry claims. The write path checks neither the
  caller's role nor the transition.
\<close>

theorem history_insert_only_checks_approver_id:
  assumes "uid \<in> set (profiles d)"
    and "list_ex (\<lambda>i. insp_id i = ah_inspection_id h) (inspections d)"
    and "approver_id h = uid"
  shows "insert_approval_history d uid h
           = Inr (d\<lparr>approval_history := approval_history d @ [h]\<rparr>)"
  using assms by (simp add: insert_approval_history_def)

theorem history_insert_only_checks_approver_id_witness:
  "10 \<in> set (profiles (demo_db approved))
   \<and> list_ex (\<lambda>i. insp_id i = 1) (inspections (demo_db approved))
   \<and> has_role (demo_db approved) 10 auditor
   \<and> insert_approval_history (demo_db approved) 10
        \<lparr>ah_inspection_id = 1, approver_id = 10, approver_role = quality_head,
         ah_action = action_rejected, previous_status = pending_team_leader,
         new_status = rejected, comments = ''forged''\<rparr>
      = Inr ((demo_db approved)\<lparr>approval_history :=
           [\<lparr>ah_inspection_id = 1, approver_id = 10, approver_role = quality_head,
             ah_action = action_rejected, previous_status = pending_team_leader,
             new_status = rejected, comments = ''forged''\<rparr>]\<rparr>)"
  using history_insert_only_checks_approver_id
    [of 10 "demo_db approved"
        "\<lparr>ah_inspection_id = 1, approver_id = 10, approver_role = quality_head,
         ah_action = action_rejected, previous_status = pending_team_leader,
         new_status = rejected, comments = ''forged''\<rparr>"]
  by (simp add: demo_db_def demo_inspection_def has_role_def)

end
